theory Spec2Isabelle
  imports Main "HOL-Library.Sublist"
begin

section \<open>The Apex mixed-precision plugin\<close>

text \<open>
  A shallow embedding of \<^verbatim>\<open>pytorch_lightning/plugins/precision/apex_amp.py\<close>
  (class \<^verbatim>\<open>ApexMixedPrecisionPlugin\<close>).

  The plugin orchestrates calls into collaborators that are not part of the file: the
  \<^verbatim>\<open>apex.amp\<close> module, the base precision plugin (\<^verbatim>\<open>super()\<close>), the training closure,
  the optimizer and the torch learning-rate schedulers. Each of them is a parameter of the
  function that calls it. A collaborator is a Python callable: it may change the world
  outside the plugin and it may raise. So it is a function from an external state \<open>'x\<close> to
  an outcome (an exception or a value) together with the state it leaves behind.
\<close>

subsection \<open>Exceptions and effectful calls\<close>

datatype exn =
    MisconfigurationException string
  | KeyError string
  | Raised string \<comment> \<open>any exception raised by a collaborator\<close>

type_synonym ('a, 'x) action = "'x \<Rightarrow> (exn + 'a) \<times> 'x"

subsection \<open>Objects\<close>

text \<open>
  An optimizer object. The value is the object's identity; the constructor records
  the outcome of \<^verbatim>\<open>isinstance(optimizer, LBFGS)\<close>, which is fixed for the lifetime
  of the object. \<^verbatim>\<open>torch.optim.Optimizer\<close> defines no \<^verbatim>\<open>__eq__\<close>, so Python's \<^verbatim>\<open>==\<close> on
  optimizers is identity, here equality of values.
\<close>

datatype optimizer = LBFGS nat | Optimizer nat

fun isinstance_LBFGS :: "optimizer \<Rightarrow> bool" where
  "isinstance_LBFGS (LBFGS _) = True"
| "isinstance_LBFGS (Optimizer _) = False"

text \<open>
  A \<^verbatim>\<open>pl.LightningModule\<close> carries the attributes the plugin reads:
  \<^verbatim>\<open>model.automatic_optimization\<close> and \<^verbatim>\<open>model.trainer.optimizers\<close>.
  A model handed to \<^verbatim>\<open>optimizer_step\<close> is \<^verbatim>\<open>Union[pl.LightningModule, Module]\<close>.
\<close>

record lightning_module =
  automatic_optimization :: bool
  trainer_optimizers :: "optimizer list"

datatype model = LightningModule lightning_module | Module

text \<open>The plugin object: \<^verbatim>\<open>self.amp_level\<close> and \<^verbatim>\<open>self._connected\<close>.\<close>

record plugin =
  amp_level :: string
  connected :: bool

subsection \<open>Construction\<close>

text \<open>
  \<^verbatim>\<open>__init__(self, amp_level="O2")\<close>. \<^verbatim>\<open>_APEX_AVAILABLE\<close> is imported from
  \<^verbatim>\<open>pytorch_lightning.utilities\<close> and is a parameter here. The message is the two adjacent
  string literals of the source, concatenated. The record holds the two attributes
  assigned here; the call of the base constructor between the check and the assignments
  is not modelled.
\<close>

definition apex_missing_message :: string where
  "apex_missing_message =
     ''You have asked for Apex AMP but you have not installed it.'' @
     '' Install `apex` using this guide: https://github.com/NVIDIA/apex''"

definition init :: "bool \<Rightarrow> string \<Rightarrow> exn + plugin" where
  "init APEX_AVAILABLE level =
     (if \<not> APEX_AVAILABLE then Inl (MisconfigurationException apex_missing_message)
      else Inr \<lparr>amp_level = level, connected = False\<rparr>)"

subsection \<open>Optimizer step\<close>

text \<open>Python's \<^verbatim>\<open>str\<close> of an \<^verbatim>\<open>int\<close>, as the f-string of the error message formats it.\<close>

definition digit_char :: "nat \<Rightarrow> char" where
  "digit_char d = ''0123456789'' ! d"

fun str_nat :: "nat \<Rightarrow> string" where
  "str_nat n = (if n < 10 then [digit_char n] else str_nat (n div 10) @ [digit_char (n mod 10)])"

definition str_int :: "int \<Rightarrow> string" where
  "str_int i = (if i < 0 then ''-'' @ str_nat (nat (- i)) else str_nat (nat i))"

definition lbfgs_message :: "int \<Rightarrow> string" where
  "lbfgs_message optimizer_idx =
     ''apex AMP and the LBFGS optimizer are not compatible (optimizer '' @
     str_int optimizer_idx @ '').''"

text \<open>
  \<^verbatim>\<open>optimizer_step(self, model, optimizer, optimizer_idx, closure, **kwargs)\<close>.
  The collaborators are \<^verbatim>\<open>self._after_closure\<close> (defined in the base plugin), the
  \<^verbatim>\<open>closure\<close>, whose result is \<^verbatim>\<open>None\<close> or a value, and \<^verbatim>\<open>optimizer.step\<close>.
  The attributes of \<^verbatim>\<open>model\<close> are read from the value passed in.
\<close>

definition optimizer_step ::
  "(model \<Rightarrow> optimizer \<Rightarrow> int \<Rightarrow> (unit, 'x) action) \<Rightarrow>
   (optimizer \<Rightarrow> 'k \<Rightarrow> (unit, 'x) action) \<Rightarrow>
   model \<Rightarrow> optimizer \<Rightarrow> int \<Rightarrow> ('r option, 'x) action \<Rightarrow> 'k \<Rightarrow> (unit, 'x) action" where
  "optimizer_step after_closure step model optimizer optimizer_idx closure kwargs x =
     (if isinstance_LBFGS optimizer
      then (Inl (MisconfigurationException (lbfgs_message optimizer_idx)), x)
      else
        (case closure x of
           (Inl e, x1) \<Rightarrow> (Inl e, x1)
         | (Inr closure_result, x1) \<Rightarrow>
             (case after_closure model optimizer optimizer_idx x1 of
                (Inl e, x2) \<Rightarrow> (Inl e, x2)
              | (Inr _, x2) \<Rightarrow>
                  (let skipped_backward = (closure_result = None) in
                   if (case model of
                         LightningModule m \<Rightarrow> \<not> automatic_optimization m \<or> \<not> skipped_backward
                       | Module \<Rightarrow> True)
                   then step optimizer kwargs x2
                   else (Inr (), x2)))))"

subsection \<open>Dispatch\<close>

text \<open>
  The part of the trainer that \<^verbatim>\<open>dispatch\<close> touches: \<^verbatim>\<open>trainer.lightning_module\<close> and
  \<^verbatim>\<open>trainer.accelerator.optimizers\<close>.
\<close>

record trainer =
  lightning_module :: model
  accelerator_optimizers :: "optimizer list"

text \<open>
  \<^verbatim>\<open>dispatch(self, trainer)\<close>. The collaborators are \<^verbatim>\<open>amp.initialize\<close>, which returns
  a pair of a model and an optimizer list, and the base plugin's \<^verbatim>\<open>dispatch\<close>
  (\<^verbatim>\<open>super().dispatch(trainer)\<close>). Both act on the external state; the plugin object and
  the trainer's optimizer slot are written by \<^verbatim>\<open>dispatch\<close> itself and are returned
  next to the outcome. An exception leaves every assignment made before it in place.
\<close>

definition dispatch ::
  "(model \<Rightarrow> optimizer list \<Rightarrow> string \<Rightarrow> (model \<times> optimizer list, 'x) action) \<Rightarrow>
   (trainer \<Rightarrow> (unit, 'x) action) \<Rightarrow>
   plugin \<Rightarrow> trainer \<Rightarrow> 'x \<Rightarrow> (exn + unit) \<times> plugin \<times> trainer \<times> 'x" where
  "dispatch amp_initialize super_dispatch self trainer x =
     (if \<not> connected self then
        (case amp_initialize (lightning_module trainer) (accelerator_optimizers trainer)
                (amp_level self) x of
           (Inl e, x1) \<Rightarrow> (Inl e, self, trainer, x1)
         | (Inr (_, optimizers), x1) \<Rightarrow>
             (let trainer1 = trainer\<lparr>accelerator_optimizers := optimizers\<rparr>;
                  self1 = self\<lparr>connected := True\<rparr>
              in case super_dispatch trainer1 x1 of (r, x2) \<Rightarrow> (r, self1, trainer1, x2)))
      else (case super_dispatch trainer x of (r, x1) \<Rightarrow> (r, self, trainer, x1)))"

subsection \<open>Backward\<close>

text \<open>
  The second argument of \<^verbatim>\<open>amp.scale_loss\<close> is either one optimizer object or a list of
  optimizers: \<^verbatim>\<open>optimizer or model.trainer.optimizers\<close> evaluates to the first operand when
  it is truthy (an optimizer object is; \<^verbatim>\<open>None\<close> is not) and to the second otherwise.
\<close>

datatype optimizers_arg = OptimizerObject optimizer | OptimizerList "optimizer list"

text \<open>
  A context manager: \<^verbatim>\<open>__enter__\<close> yields the value bound by \<^verbatim>\<open>as\<close>; \<^verbatim>\<open>__exit__\<close> receives
  the exception that left the block (or none) and answers whether to suppress it.
\<close>

record ('l, 'x) context_manager =
  ctx_enter :: "('l, 'x) action"
  ctx_exit :: "exn option \<Rightarrow> (bool, 'x) action"

text \<open>
  Python's \<^verbatim>\<open>with EXPR as VAR: BLOCK\<close>: evaluate the manager, enter it, run the block;
  \<^verbatim>\<open>__exit__\<close> runs when the block returns and when it raises. An exception of the
  block is re-raised unless \<^verbatim>\<open>__exit__\<close> returns a true value; an exception of
  \<^verbatim>\<open>__exit__\<close> itself replaces it.
\<close>

definition with_statement ::
  "(('l, 'x) context_manager, 'x) action \<Rightarrow> ('l \<Rightarrow> (unit, 'x) action) \<Rightarrow> (unit, 'x) action" where
  "with_statement expr block x =
     (case expr x of
        (Inl e, x0) \<Rightarrow> (Inl e, x0)
      | (Inr mgr, x0) \<Rightarrow>
          (case ctx_enter mgr x0 of
             (Inl e, x1) \<Rightarrow> (Inl e, x1)
           | (Inr var, x1) \<Rightarrow>
               (case block var x1 of
                  (Inl e, x2) \<Rightarrow>
                    (case ctx_exit mgr (Some e) x2 of
                       (Inl e', x3) \<Rightarrow> (Inl e', x3)
                     | (Inr suppress, x3) \<Rightarrow> if suppress then (Inr (), x3) else (Inl e, x3))
                | (Inr _, x2) \<Rightarrow>
                    (case ctx_exit mgr None x2 of
                       (Inl e', x3) \<Rightarrow> (Inl e', x3)
                     | (Inr _, x3) \<Rightarrow> (Inr (), x3)))))"

text \<open>
  \<^verbatim>\<open>backward(self, model, closure_loss, optimizer, *args, **kwargs)\<close>. The collaborators
  are \<^verbatim>\<open>amp.scale_loss\<close> and the base plugin's \<^verbatim>\<open>backward\<close>; \<open>args\<close> stands for the
  extra positional and keyword arguments, passed on as they are.
\<close>

definition backward ::
  "('l \<Rightarrow> optimizers_arg \<Rightarrow> (('l, 'x) context_manager, 'x) action) \<Rightarrow>
   (lightning_module \<Rightarrow> 'l \<Rightarrow> optimizer option \<Rightarrow> 'a \<Rightarrow> (unit, 'x) action) \<Rightarrow>
   lightning_module \<Rightarrow> 'l \<Rightarrow> optimizer option \<Rightarrow> 'a \<Rightarrow> (unit, 'x) action" where
  "backward amp_scale_loss super_backward model closure_loss optimizer args =
     (let opt = (case optimizer of
                   Some optimizer_object \<Rightarrow> OptimizerObject optimizer_object
                 | None \<Rightarrow> OptimizerList (trainer_optimizers model))
      in with_statement (amp_scale_loss closure_loss opt)
           (\<lambda>closure_loss. super_backward model closure_loss optimizer args))"

subsection \<open>Checkpoints\<close>

text \<open>
  A checkpoint is a dictionary from strings to values. \<^verbatim>\<open>amp.load_state_dict\<close> and
  \<^verbatim>\<open>amp.state_dict\<close> are the collaborators. \<^verbatim>\<open>on_save_checkpoint\<close> updates the dictionary
  in place; the updated dictionary is returned next to the outcome.
\<close>

definition on_load_checkpoint ::
  "('v \<Rightarrow> (unit, 'x) action) \<Rightarrow> (string \<rightharpoonup> 'v) \<Rightarrow> (unit, 'x) action" where
  "on_load_checkpoint amp_load_state_dict checkpoint x =
     (case checkpoint ''amp_scaling_state'' of
        Some v \<Rightarrow> amp_load_state_dict v x
      | None \<Rightarrow> (Inr (), x))"

definition on_save_checkpoint ::
  "('v, 'x) action \<Rightarrow> (string \<rightharpoonup> 'v) \<Rightarrow> 'x \<Rightarrow> (exn + unit) \<times> (string \<rightharpoonup> 'v) \<times> 'x" where
  "on_save_checkpoint amp_state_dict checkpoint x =
     (case amp_state_dict x of
        (Inl e, x1) \<Rightarrow> (Inl e, checkpoint, x1)
      | (Inr v, x1) \<Rightarrow> (Inr (), checkpoint(''amp_scaling_state'' \<mapsto> v), x1))"

subsection \<open>Scheduler repair\<close>

text \<open>
  A class as it appears in a method resolution order:
  \<^verbatim>\<open>torch.optim.lr_scheduler._LRScheduler\<close>, \<^verbatim>\<open>torch.optim.lr_scheduler.ReduceLROnPlateau\<close>,
  or any other class, by name.
\<close>

datatype py_class = LRScheduler | ReduceLROnPlateau | OtherClass string

text \<open>
  A scheduler object: \<^verbatim>\<open>scheduler.optimizer\<close>, \<^verbatim>\<open>scheduler.__class__.__mro__\<close>, the step
  counter \<^verbatim>\<open>last_epoch\<close>, and the rest of its attributes.
\<close>

record 'a scheduler =
  scheduler_optimizer :: optimizer
  scheduler_mro :: "py_class list"
  last_epoch :: int
  scheduler_attrs :: 'a

text \<open>
  The scheduler's own methods belong to torch and are parameters: \<^verbatim>\<open>state_dict()\<close>,
  \<^verbatim>\<open>load_state_dict(state)\<close> and the constructor \<^verbatim>\<open>C.__init__(scheduler, optimizer)\<close>
  of a class \<open>C\<close>. They are taken as total functions of the scheduler object; what a
  constructor writes into the optimizer it is given is outside the model.

  The innermost loop, over \<^verbatim>\<open>enumerate(scheduler.__class__.__mro__)\<close>. It returns the
  variable \<^verbatim>\<open>state\<close> (\<^verbatim>\<open>None\<close> when no class matched) and the scheduler.
\<close>

fun mro_loop ::
  "('a scheduler \<Rightarrow> 'd) \<Rightarrow> (py_class \<Rightarrow> 'a scheduler \<Rightarrow> optimizer \<Rightarrow> 'a scheduler) \<Rightarrow>
   ('a scheduler \<Rightarrow> 'd \<Rightarrow> 'a scheduler) \<Rightarrow>
   (nat \<times> py_class) list \<Rightarrow> 'a scheduler \<Rightarrow> optimizer \<Rightarrow> 'd option \<times> 'a scheduler" where
  "mro_loop state_dict class_init load_state_dict [] scheduler optimizer = (None, scheduler)"
| "mro_loop state_dict class_init load_state_dict ((i, mro) # rest) scheduler optimizer =
     (if mro \<in> {LRScheduler, ReduceLROnPlateau} then
        (let state = state_dict scheduler;
             scheduler1 = class_init (scheduler_mro scheduler ! i) scheduler optimizer;
             scheduler2 = load_state_dict scheduler1 state
         in (Some state, scheduler2))
      else mro_loop state_dict class_init load_state_dict rest scheduler optimizer)"

text \<open>The loop over \<^verbatim>\<open>optimizers\<close>; \<^verbatim>\<open>state\<close> is \<^verbatim>\<open>None\<close> when an iteration starts.\<close>

fun optimizer_loop ::
  "('a scheduler \<Rightarrow> 'd) \<Rightarrow> (py_class \<Rightarrow> 'a scheduler \<Rightarrow> optimizer \<Rightarrow> 'a scheduler) \<Rightarrow>
   ('a scheduler \<Rightarrow> 'd \<Rightarrow> 'a scheduler) \<Rightarrow>
   optimizer list \<Rightarrow> 'a scheduler \<Rightarrow> 'a scheduler" where
  "optimizer_loop state_dict class_init load_state_dict [] scheduler = scheduler"
| "optimizer_loop state_dict class_init load_state_dict (optimizer # rest) scheduler =
     (case (if scheduler_optimizer scheduler = optimizer
            then mro_loop state_dict class_init load_state_dict
                   (enumerate 0 (scheduler_mro scheduler)) scheduler optimizer
            else (None, scheduler)) of
        (state, scheduler1) \<Rightarrow>
          if state \<noteq> None then scheduler1
          else optimizer_loop state_dict class_init load_state_dict rest scheduler1)"

text \<open>
  \<^verbatim>\<open>reinit_scheduler_properties(optimizers, schedulers)\<close>. Each element of
  \<^verbatim>\<open>schedulers\<close> is a dictionary whose entry \<^verbatim>\<open>"scheduler"\<close> refers to a scheduler object;
  the objects live in a store indexed by reference and are updated in place.
\<close>

fun reinit_scheduler_properties ::
  "('a scheduler \<Rightarrow> 'd) \<Rightarrow> (py_class \<Rightarrow> 'a scheduler \<Rightarrow> optimizer \<Rightarrow> 'a scheduler) \<Rightarrow>
   ('a scheduler \<Rightarrow> 'd \<Rightarrow> 'a scheduler) \<Rightarrow>
   optimizer list \<Rightarrow> (string \<rightharpoonup> nat) list \<Rightarrow> (unit, nat \<Rightarrow> 'a scheduler) action" where
  "reinit_scheduler_properties state_dict class_init load_state_dict optimizers [] store =
     (Inr (), store)"
| "reinit_scheduler_properties state_dict class_init load_state_dict optimizers
     (scheduler # rest) store =
     (case scheduler ''scheduler'' of
        None \<Rightarrow> (Inl (KeyError ''scheduler''), store)
      | Some ref \<Rightarrow>
          reinit_scheduler_properties state_dict class_init load_state_dict optimizers rest
            (store(ref := optimizer_loop state_dict class_init load_state_dict optimizers
                            (store ref))))"

section \<open>Observing the collaborators\<close>

text \<open>
  To say that a collaborator was called, how often and with which arguments, the plugin
  is run against recording collaborators: \<open>logged c f\<close> behaves as \<open>f\<close> on the external
  state and appends the call \<open>c\<close> to a log carried next to it. The plugin's own functions
  are unchanged; only their parameters are instantiated.
\<close>

definition logged :: "'c \<Rightarrow> ('a, 'x) action \<Rightarrow> ('a, 'x \<times> 'c list) action" where
  "logged c f = (\<lambda>(x, calls). case f x of (r, x') \<Rightarrow> (r, (x', calls @ [c])))"

datatype 'k step_call =
    ClosureCall
  | AfterClosureCall model optimizer int
  | StepCall optimizer 'k

definition recorded_optimizer_step ::
  "(model \<Rightarrow> optimizer \<Rightarrow> int \<Rightarrow> (unit, 'x) action) \<Rightarrow>
   (optimizer \<Rightarrow> 'k \<Rightarrow> (unit, 'x) action) \<Rightarrow>
   model \<Rightarrow> optimizer \<Rightarrow> int \<Rightarrow> ('r option, 'x) action \<Rightarrow> 'k \<Rightarrow>
   (unit, 'x \<times> 'k step_call list) action" where
  "recorded_optimizer_step after_closure step model optimizer optimizer_idx closure kwargs =
     optimizer_step
       (\<lambda>m p i. logged (AfterClosureCall m p i) (after_closure m p i))
       (\<lambda>p k. logged (StepCall p k) (step p k))
       model optimizer optimizer_idx (logged ClosureCall closure) kwargs"

datatype dispatch_call =
    InitializeCall model "optimizer list" string
  | SuperDispatchCall trainer

fun is_initialize :: "dispatch_call \<Rightarrow> bool" where
  "is_initialize (InitializeCall _ _ _) = True"
| "is_initialize (SuperDispatchCall _) = False"

definition recorded_dispatch ::
  "(model \<Rightarrow> optimizer list \<Rightarrow> string \<Rightarrow> (model \<times> optimizer list, 'x) action) \<Rightarrow>
   (trainer \<Rightarrow> (unit, 'x) action) \<Rightarrow>
   plugin \<Rightarrow> trainer \<Rightarrow> 'x \<times> dispatch_call list \<Rightarrow>
   (exn + unit) \<times> plugin \<times> trainer \<times> 'x \<times> dispatch_call list" where
  "recorded_dispatch amp_initialize super_dispatch =
     dispatch
       (\<lambda>m os l. logged (InitializeCall m os l) (amp_initialize m os l))
       (\<lambda>t. logged (SuperDispatchCall t) (super_dispatch t))"

text \<open>
  A driver that calls \<^verbatim>\<open>dispatch\<close> \<open>n\<close> times in a row on the same plugin and trainer;
  an exception ends the run.
\<close>

fun dispatch_times ::
  "(model \<Rightarrow> optimizer list \<Rightarrow> string \<Rightarrow> (model \<times> optimizer list, 'x) action) \<Rightarrow>
   (trainer \<Rightarrow> (unit, 'x) action) \<Rightarrow> nat \<Rightarrow>
   plugin \<Rightarrow> trainer \<Rightarrow> 'x \<times> dispatch_call list \<Rightarrow>
   (exn + unit) \<times> plugin \<times> trainer \<times> 'x \<times> dispatch_call list" where
  "dispatch_times amp_initialize super_dispatch 0 self trainer w = (Inr (), self, trainer, w)"
| "dispatch_times amp_initialize super_dispatch (Suc n) self trainer w =
     (case recorded_dispatch amp_initialize super_dispatch self trainer w of
        (Inl e, rest) \<Rightarrow> (Inl e, rest)
      | (Inr _, self', trainer', w') \<Rightarrow>
          dispatch_times amp_initialize super_dispatch n self' trainer' w')"

datatype ('l, 'a) backward_call =
    ScaleLossCall 'l optimizers_arg
  | EnterCall
  | SuperBackwardCall lightning_module 'l "optimizer option" 'a
  | ExitCall "exn option"

fun is_scale_loss :: "('l, 'a) backward_call \<Rightarrow> bool" where
  "is_scale_loss (ScaleLossCall _ _) = True"
| "is_scale_loss _ = False"

definition logged_manager ::
  "('l, 'x) context_manager \<Rightarrow> ('l, 'x \<times> ('l, 'a) backward_call list) context_manager" where
  "logged_manager mgr =
     \<lparr>ctx_enter = logged EnterCall (ctx_enter mgr),
      ctx_exit = (\<lambda>e. logged (ExitCall e) (ctx_exit mgr e))\<rparr>"

definition recorded_backward ::
  "('l \<Rightarrow> optimizers_arg \<Rightarrow> (('l, 'x) context_manager, 'x) action) \<Rightarrow>
   (lightning_module \<Rightarrow> 'l \<Rightarrow> optimizer option \<Rightarrow> 'a \<Rightarrow> (unit, 'x) action) \<Rightarrow>
   lightning_module \<Rightarrow> 'l \<Rightarrow> optimizer option \<Rightarrow> 'a \<Rightarrow>
   (unit, 'x \<times> ('l, 'a) backward_call list) action" where
  "recorded_backward amp_scale_loss super_backward =
     backward
       (\<lambda>l opt w. case logged (ScaleLossCall l opt) (amp_scale_loss l opt) w of
                    (Inl e, w') \<Rightarrow> (Inl e, w')
                  | (Inr mgr, w') \<Rightarrow> (Inr (logged_manager mgr), w'))
       (\<lambda>m l opt a. logged (SuperBackwardCall m l opt a) (super_backward m l opt a))"

text \<open>
  A context manager written as a generator, in the way \<^verbatim>\<open>contextlib.contextmanager\<close>
  turns a function with one \<^verbatim>\<open>yield\<close> into a manager, with the release code after the
  \<^verbatim>\<open>yield\<close> and no \<^verbatim>\<open>try/finally\<close> around it. The external state says whether the
  gradients are scaled. \<^verbatim>\<open>__enter__\<close> scales and yields the scaled loss. \<^verbatim>\<open>__exit__\<close>
  without an exception resumes the generator, which unscales; with an exception it throws
  the exception into the generator at the \<^verbatim>\<open>yield\<close>, so the code after it does not run,
  and the exception is not suppressed.
\<close>

definition generator_manager :: "int \<Rightarrow> (int, bool) context_manager" where
  "generator_manager loss =
     \<lparr>ctx_enter = (\<lambda>scaled_grads. (Inr (loss * 128), True)),
      ctx_exit = (\<lambda>e scaled_grads.
                    case e of
                      None \<Rightarrow> (Inr False, False)
                    | Some _ \<Rightarrow> (Inr False, scaled_grads))\<rparr>"

datatype 'v load_call = LoadStateDictCall 'v

definition recorded_on_load_checkpoint ::
  "('v \<Rightarrow> (unit, 'x) action) \<Rightarrow> (string \<rightharpoonup> 'v) \<Rightarrow> (unit, 'x \<times> 'v load_call list) action" where
  "recorded_on_load_checkpoint amp_load_state_dict =
     on_load_checkpoint (\<lambda>v. logged (LoadStateDictCall v) (amp_load_state_dict v))"

section \<open>Properties\<close>

lemma logged_apply: "f x = (r, x') \<Longrightarrow> logged c f (x, calls) = (r, (x', calls @ [c]))"
  by (simp add: logged_def)

subsection \<open>Construction\<close>

text \<open>
  C7. Constructing the plugin when apex is not available fails at once with a
  \<^verbatim>\<open>MisconfigurationException\<close>: no plugin object results, so nothing is left to a first
  use. The message names \<^verbatim>\<open>apex\<close> and carries the installation hint.
\<close>

theorem init_without_apex:
  "init False level = Inl (MisconfigurationException apex_missing_message) \<and>
   sublist ''apex'' apex_missing_message \<and>
   sublist ''Install `apex` using this guide: https://github.com/NVIDIA/apex''
     apex_missing_message"
proof (intro conjI)
  show "init False level = Inl (MisconfigurationException apex_missing_message)"
    by (simp add: init_def)
  show "sublist ''apex'' apex_missing_message"
    unfolding apex_missing_message_def sublist_def
    by (rule exI[of _ "''You have asked for Apex AMP but you have not installed it. Install `''"],
        rule exI[of _ "''` using this guide: https://github.com/NVIDIA/apex''"]) simp
  show "sublist ''Install `apex` using this guide: https://github.com/NVIDIA/apex''
          apex_missing_message"
    unfolding apex_missing_message_def sublist_def
    by (rule exI[of _ "''You have asked for Apex AMP but you have not installed it. ''"],
        rule exI[of _ "[]"]) simp
qed

theorem init_without_apex_witness:
  "init False ''O2'' =
     Inl (MisconfigurationException
       ''You have asked for Apex AMP but you have not installed it. Install `apex` using this guide: https://github.com/NVIDIA/apex'')"
  using init_without_apex [of "''O2''"] by (simp add: apex_missing_message_def)

subsection \<open>Dispatch\<close>

lemma recorded_dispatch_connected:
  assumes "connected self"
    and "recorded_dispatch amp_initialize super_dispatch self trainer (x, calls) =
           (r, self', trainer', (x', calls'))"
  shows "self' = self \<and> trainer' = trainer \<and>
         filter is_initialize calls' = filter is_initialize calls"
  using assms
  by (cases "super_dispatch trainer x")
     (auto simp: recorded_dispatch_def dispatch_def logged_def)

lemma dispatch_times_connected:
  assumes "connected self"
    and "dispatch_times amp_initialize super_dispatch n self trainer (x, calls) =
           (r, self', trainer', (x', calls'))"
  shows "self' = self \<and> trainer' = trainer \<and>
         filter is_initialize calls' = filter is_initialize calls"
  using assms
proof (induction n arbitrary: x calls)
  case 0
  then show ?case by simp
next
  case (Suc n)
  obtain q self1 trainer1 xa calls1 where
    step: "recorded_dispatch amp_initialize super_dispatch self trainer (x, calls) =
             (q, self1, trainer1, (xa, calls1))"
    by (metis prod_cases5)
  from recorded_dispatch_connected [OF Suc.prems(1) step]
  have same: "self1 = self" "trainer1 = trainer" "filter is_initialize calls1 = filter is_initialize calls"
    by simp_all
  show ?case
  proof (cases q)
    case (Inl e)
    with Suc.prems(2) step same show ?thesis by simp
  next
    case (Inr u)
    with Suc.prems(2) step same
    have "dispatch_times amp_initialize super_dispatch n self trainer (xa, calls1) =
            (r, self', trainer', (x', calls'))"
      by simp
    from Suc.IH [OF Suc.prems(1) this] same show ?thesis by simp
  qed
qed

lemma recorded_dispatch_first:
  assumes "\<not> connected self"
    and "recorded_dispatch amp_initialize super_dispatch self trainer (x, calls) =
           (r, self', trainer', (x', calls'))"
  shows "filter is_initialize calls' =
           filter is_initialize calls @
           [InitializeCall (lightning_module trainer) (accelerator_optimizers trainer)
              (amp_level self)] \<and>
         (case amp_initialize (lightning_module trainer) (accelerator_optimizers trainer)
                 (amp_level self) x of
            (Inr (m, optimizers), xa) \<Rightarrow>
              self' = self\<lparr>connected := True\<rparr> \<and>
              trainer' = trainer\<lparr>accelerator_optimizers := optimizers\<rparr>
          | (Inl e, xa) \<Rightarrow> r = Inl e \<and> self' = self \<and> trainer' = trainer)"
proof (cases "amp_initialize (lightning_module trainer) (accelerator_optimizers trainer)
                 (amp_level self) x")
  case (Pair q xa)
  show ?thesis
  proof (cases q)
    case (Inl e)
    with Pair assms show ?thesis
      by (auto simp: recorded_dispatch_def dispatch_def logged_def Let_def)
  next
    case (Inr mo)
    obtain m os where mo: "mo = (m, os)" by (cases mo)
    obtain q2 xb where sd: "super_dispatch (trainer\<lparr>accelerator_optimizers := os\<rparr>) xa = (q2, xb)"
      by (cases "super_dispatch (trainer\<lparr>accelerator_optimizers := os\<rparr>) xa")
    from Pair Inr mo sd assms show ?thesis
      by (auto simp: recorded_dispatch_def dispatch_def logged_def Let_def)
  qed
qed

text \<open>
  C1. A plugin fresh from the constructor is not connected. When \<^verbatim>\<open>dispatch\<close> is called
  \<open>n \<ge> 1\<close> times on it, \<^verbatim>\<open>amp.initialize\<close> is called exactly once, with the trainer's
  module, its optimizers and the plugin's level. If that call returned a pair, then after
  the \<open>n\<close> calls the plugin is connected and the trainer's optimizer list is the list of
  that pair, for every \<open>n\<close>; if it raised, the run ended there with the plugin not
  connected and the trainer as it was.
\<close>

theorem dispatch_initializes_once:
  assumes "init True level = Inr self"
    and "0 < n"
    and "dispatch_times amp_initialize super_dispatch n self trainer (x, []) =
           (r, self', trainer', (x', calls))"
  shows "\<not> connected self \<and>
         filter is_initialize calls =
           [InitializeCall (lightning_module trainer) (accelerator_optimizers trainer) level] \<and>
         (case amp_initialize (lightning_module trainer) (accelerator_optimizers trainer) level x of
            (Inr (m, optimizers), xa) \<Rightarrow>
              connected self' \<and> accelerator_optimizers trainer' = optimizers
          | (Inl e, xa) \<Rightarrow>
              r = Inl e \<and> \<not> connected self' \<and> trainer' = trainer)"
proof -
  from assms(1) have self: "self = \<lparr>amp_level = level, connected = False\<rparr>"
    by (simp add: init_def)
  then have nc: "\<not> connected self" and lvl: "amp_level self = level" by simp_all
  from assms(2) obtain k where n: "n = Suc k" by (cases n) auto
  obtain q self1 trainer1 xa calls1 where
    step: "recorded_dispatch amp_initialize super_dispatch self trainer (x, []) =
             (q, self1, trainer1, (xa, calls1))"
    by (metis prod_cases5)
  note first = recorded_dispatch_first [OF nc step, unfolded lvl]
  obtain qi xi where ini:
    "amp_initialize (lightning_module trainer) (accelerator_optimizers trainer) level x = (qi, xi)"
    by (cases "amp_initialize (lightning_module trainer) (accelerator_optimizers trainer) level x")
  show ?thesis
  proof (cases qi)
    case (Inl e)
    with first ini have q: "q = Inl e" "self1 = self" "trainer1 = trainer" by simp_all
    with assms(3) n step have "r = Inl e" "self' = self" "trainer' = trainer" "calls = calls1"
      by simp_all
    with first ini Inl nc show ?thesis by simp
  next
    case (Inr mo)
    obtain m os where mo: "mo = (m, os)" by (cases mo)
    with first ini Inr have self1: "self1 = self\<lparr>connected := True\<rparr>"
      and trainer1: "trainer1 = trainer\<lparr>accelerator_optimizers := os\<rparr>" by simp_all
    have conn: "connected self1" using self1 by simp
    have "self' = self1 \<and> trainer' = trainer1 \<and> filter is_initialize calls = filter is_initialize calls1"
    proof (cases q)
      case (Inl e)
      with assms(3) n step show ?thesis by simp
    next
      case (Inr u)
      with assms(3) n step
      have "dispatch_times amp_initialize super_dispatch k self1 trainer1 (xa, calls1) =
              (r, self', trainer', (x', calls))" by simp
      from dispatch_times_connected [OF conn this] show ?thesis .
    qed
    with first ini Inr mo self1 trainer1 nc show ?thesis by simp
  qed
qed

theorem dispatch_initializes_once_witness:
  "init True ''O2'' = Inr \<lparr>amp_level = ''O2'', connected = False\<rparr> \<and>
   dispatch_times
     (\<lambda>m os l x. (Inr (m, map (\<lambda>p. case p of Optimizer k \<Rightarrow> Optimizer (k + 100)
                                    | LBFGS k \<Rightarrow> LBFGS (k + 100)) os), Suc x))
     (\<lambda>t x. (Inr (), x)) (Suc (Suc (Suc 0)))
     \<lparr>amp_level = ''O2'', connected = False\<rparr>
     \<lparr>lightning_module = Module, accelerator_optimizers = [Optimizer 0, Optimizer 1]\<rparr>
     (0 :: nat, []) =
   (Inr (), \<lparr>amp_level = ''O2'', connected = True\<rparr>,
    \<lparr>lightning_module = Module, accelerator_optimizers = [Optimizer 100, Optimizer 101]\<rparr>,
    (1,
     [InitializeCall Module [Optimizer 0, Optimizer 1] ''O2'',
      SuperDispatchCall \<lparr>lightning_module = Module, accelerator_optimizers = [Optimizer 100, Optimizer 101]\<rparr>,
      SuperDispatchCall \<lparr>lightning_module = Module, accelerator_optimizers = [Optimizer 100, Optimizer 101]\<rparr>,
      SuperDispatchCall \<lparr>lightning_module = Module, accelerator_optimizers = [Optimizer 100, Optimizer 101]\<rparr>])) \<and>
   filter is_initialize
     [InitializeCall Module [Optimizer 0, Optimizer 1] ''O2'',
      SuperDispatchCall \<lparr>lightning_module = Module, accelerator_optimizers = [Optimizer 100, Optimizer 101]\<rparr>,
      SuperDispatchCall \<lparr>lightning_module = Module, accelerator_optimizers = [Optimizer 100, Optimizer 101]\<rparr>,
      SuperDispatchCall \<lparr>lightning_module = Module, accelerator_optimizers = [Optimizer 100, Optimizer 101]\<rparr>] =
     [InitializeCall Module [Optimizer 0, Optimizer 1] ''O2'']"
  using dispatch_initializes_once [where level = "''O2''"
      and self = "\<lparr>amp_level = ''O2'', connected = False\<rparr>" and n = "Suc (Suc (Suc 0))"
      and amp_initialize = "\<lambda>m os l x. (Inr (m, map (\<lambda>p. case p of Optimizer k \<Rightarrow> Optimizer (k + 100)
                                    | LBFGS k \<Rightarrow> LBFGS (k + 100)) os), Suc x)"
      and super_dispatch = "\<lambda>t x. (Inr (), x)"
      and trainer = "\<lparr>lightning_module = Module, accelerator_optimizers = [Optimizer 0, Optimizer 1]\<rparr>"
      and x = "0 :: nat" and r = "Inr ()"
      and self' = "\<lparr>amp_level = ''O2'', connected = True\<rparr>"
      and trainer' = "\<lparr>lightning_module = Module, accelerator_optimizers = [Optimizer 100, Optimizer 101]\<rparr>"
      and x' = 1
      and calls = "[InitializeCall Module [Optimizer 0, Optimizer 1] ''O2'',
      SuperDispatchCall \<lparr>lightning_module = Module, accelerator_optimizers = [Optimizer 100, Optimizer 101]\<rparr>,
      SuperDispatchCall \<lparr>lightning_module = Module, accelerator_optimizers = [Optimizer 100, Optimizer 101]\<rparr>,
      SuperDispatchCall \<lparr>lightning_module = Module, accelerator_optimizers = [Optimizer 100, Optimizer 101]\<rparr>]"]
  by (simp add: init_def recorded_dispatch_def dispatch_def logged_def Let_def)

subsection \<open>Backward\<close>

lemma recorded_backward_run:
  assumes "amp_scale_loss closure_loss
             (case optimizer of Some p \<Rightarrow> OptimizerObject p
              | None \<Rightarrow> OptimizerList (trainer_optimizers model)) x = (Inr mgr, xa)"
    and "ctx_enter mgr xa = (Inr scaled, xb)"
    and "super_backward model scaled optimizer args xb = (r, xc)"
    and "ctx_exit mgr (case r of Inl e \<Rightarrow> Some e | Inr u \<Rightarrow> None) xc = (q, xd)"
  shows "recorded_backward amp_scale_loss super_backward model closure_loss optimizer args
           (x, calls) =
         ((case q of Inl e' \<Rightarrow> Inl e'
           | Inr suppress \<Rightarrow> (case r of Inl e \<Rightarrow> if suppress then Inr () else Inl e
                               | Inr u \<Rightarrow> Inr ())),
          (xd,
           calls @
           [ScaleLossCall closure_loss
              (case optimizer of Some p \<Rightarrow> OptimizerObject p
               | None \<Rightarrow> OptimizerList (trainer_optimizers model)),
            EnterCall,
            SuperBackwardCall model scaled optimizer args,
            ExitCall (case r of Inl e \<Rightarrow> Some e | Inr u \<Rightarrow> None)]))"
  using assms
  by (cases r; cases q)
     (simp_all add: Let_def recorded_backward_def backward_def with_statement_def logged_manager_def
        logged_apply)

text \<open>
  C4 (amended). Once \<^verbatim>\<open>amp.scale_loss\<close> has returned its context manager and the manager
  has been entered, yielding the scaled loss, the base \<^verbatim>\<open>backward\<close> is called with that
  scaled loss and the manager's \<^verbatim>\<open>__exit__\<close> is called exactly once after it, on every exit
  path: with no exception when the base \<^verbatim>\<open>backward\<close> returned, and with the exception when
  it raised. \<^verbatim>\<open>backward\<close> ends in the state \<^verbatim>\<open>__exit__\<close> left; it raises what \<^verbatim>\<open>__exit__\<close>
  raised, or else the exception of the base \<^verbatim>\<open>backward\<close> unless \<^verbatim>\<open>__exit__\<close> suppressed it.
  What \<^verbatim>\<open>__exit__\<close> does to the gradients is the backend's business.
\<close>

theorem backward_exit_on_every_path:
  assumes "amp_scale_loss closure_loss
             (case optimizer of Some p \<Rightarrow> OptimizerObject p
              | None \<Rightarrow> OptimizerList (trainer_optimizers model)) x = (Inr mgr, xa)"
    and "ctx_enter mgr xa = (Inr scaled, xb)"
    and "super_backward model scaled optimizer args xb = (r, xc)"
    and "ctx_exit mgr (case r of Inl e \<Rightarrow> Some e | Inr u \<Rightarrow> None) xc = (q, xd)"
  shows "snd (recorded_backward amp_scale_loss super_backward model closure_loss optimizer args
                (x, calls)) =
         (xd,
          calls @
          [ScaleLossCall closure_loss
             (case optimizer of Some p \<Rightarrow> OptimizerObject p
              | None \<Rightarrow> OptimizerList (trainer_optimizers model)),
           EnterCall,
           SuperBackwardCall model scaled optimizer args,
           ExitCall (case r of Inl e \<Rightarrow> Some e | Inr u \<Rightarrow> None)]) \<and>
         fst (recorded_backward amp_scale_loss super_backward model closure_loss optimizer args
                (x, calls)) =
         (case q of
            Inl e' \<Rightarrow> Inl e'
          | Inr suppress \<Rightarrow>
              (case r of Inl e \<Rightarrow> if suppress then Inr () else Inl e | Inr u \<Rightarrow> Inr ()))"
proof -
  have "recorded_backward amp_scale_loss super_backward model closure_loss optimizer args
          (x, calls) =
        ((case q of Inl e' \<Rightarrow> Inl e'
          | Inr suppress \<Rightarrow> (case r of Inl e \<Rightarrow> if suppress then Inr () else Inl e
                              | Inr u \<Rightarrow> Inr ())),
         (xd,
          calls @
          [ScaleLossCall closure_loss
             (case optimizer of Some p \<Rightarrow> OptimizerObject p
              | None \<Rightarrow> OptimizerList (trainer_optimizers model)),
           EnterCall,
           SuperBackwardCall model scaled optimizer args,
           ExitCall (case r of Inl e \<Rightarrow> Some e | Inr u \<Rightarrow> None)]))"
    using assms by (rule recorded_backward_run)
  then show ?thesis by simp
qed

theorem backward_exit_on_every_path_witness:
  "recorded_backward (\<lambda>l opt x. (Inr (generator_manager l), x))
     (\<lambda>m l opt a s. (Inr (), s))
     \<lparr>automatic_optimization = True, trainer_optimizers = [Optimizer 0]\<rparr>
     2 (Some (Optimizer 0)) () (False, []) =
   (Inr (),
    (False,
     [ScaleLossCall 2 (OptimizerObject (Optimizer 0)), EnterCall,
      SuperBackwardCall \<lparr>automatic_optimization = True, trainer_optimizers = [Optimizer 0]\<rparr>
        256 (Some (Optimizer 0)) (),
      ExitCall None])) \<and>
   snd (snd (recorded_backward (\<lambda>l opt x. (Inr (generator_manager l), x))
     (\<lambda>m l opt a s. (Inl (Raised ''backward failed''), s))
     \<lparr>automatic_optimization = True, trainer_optimizers = [Optimizer 0]\<rparr>
     2 (Some (Optimizer 0)) () (False, []))) =
     [ScaleLossCall 2 (OptimizerObject (Optimizer 0)), EnterCall,
      SuperBackwardCall \<lparr>automatic_optimization = True, trainer_optimizers = [Optimizer 0]\<rparr>
        256 (Some (Optimizer 0)) (),
      ExitCall (Some (Raised ''backward failed''))]"
  using
    backward_exit_on_every_path [where amp_scale_loss = "\<lambda>l opt x. (Inr (generator_manager l), x)"
      and closure_loss = 2 and optimizer = "Some (Optimizer 0)"
      and model = "\<lparr>automatic_optimization = True, trainer_optimizers = [Optimizer 0]\<rparr>"
      and x = False and mgr = "generator_manager 2" and xa = False and scaled = 256
      and xb = True and super_backward = "\<lambda>m l opt a s. (Inr (), s)" and args = "()"
      and r = "Inr ()" and xc = True and q = "Inr False" and xd = False and calls = "[]"]
    backward_exit_on_every_path [where amp_scale_loss = "\<lambda>l opt x. (Inr (generator_manager l), x)"
      and closure_loss = 2 and optimizer = "Some (Optimizer 0)"
      and model = "\<lparr>automatic_optimization = True, trainer_optimizers = [Optimizer 0]\<rparr>"
      and x = False and mgr = "generator_manager 2" and xa = False and scaled = 256
      and xb = True and super_backward = "\<lambda>m l opt a s. (Inl (Raised ''backward failed''), s)"
      and args = "()" and r = "Inl (Raised ''backward failed'')" and xc = True
      and q = "Inr False" and xd = True and calls = "[]"]
  by (simp add: generator_manager_def prod_eq_iff)

text \<open>
  C4 as stated fails: the plugin adds no release of its own, so the gradients are unscaled
  after \<^verbatim>\<open>backward\<close> only if \<^verbatim>\<open>__exit__\<close> unscales them. With the generator-style manager
  and a base \<^verbatim>\<open>backward\<close> that raises, \<^verbatim>\<open>__exit__\<close> is called with the exception and
  \<^verbatim>\<open>backward\<close> raises it, and the gradients, unscaled before the call, are scaled after it.
\<close>

theorem backward_releases_scope_counterexample:
  "recorded_backward (\<lambda>l opt x. (Inr (generator_manager l), x))
     (\<lambda>m l opt a s. (Inl (Raised ''backward failed''), s))
     \<lparr>automatic_optimization = True, trainer_optimizers = [Optimizer 0]\<rparr>
     2 (Some (Optimizer 0)) () (False, []) =
   (Inl (Raised ''backward failed''),
    (True,
     [ScaleLossCall 2 (OptimizerObject (Optimizer 0)), EnterCall,
      SuperBackwardCall \<lparr>automatic_optimization = True, trainer_optimizers = [Optimizer 0]\<rparr>
        256 (Some (Optimizer 0)) (),
      ExitCall (Some (Raised ''backward failed''))]))"
  by (simp add: recorded_backward_def backward_def with_statement_def logged_manager_def
        logged_def generator_manager_def)

text \<open>
  C5 (amended). \<^verbatim>\<open>backward\<close> calls \<^verbatim>\<open>amp.scale_loss\<close> exactly once, first, with the closure
  loss and with the optimizer argument itself when one is given, and otherwise with the
  whole list \<^verbatim>\<open>model.trainer.optimizers\<close>.
\<close>

theorem backward_scale_loss_argument:
  "\<exists>r x' rest.
     recorded_backward amp_scale_loss super_backward model closure_loss optimizer args (x, calls) =
       (r, (x', calls @
              ScaleLossCall closure_loss
                (case optimizer of Some p \<Rightarrow> OptimizerObject p
                 | None \<Rightarrow> OptimizerList (trainer_optimizers model)) # rest)) \<and>
     \<not> list_ex is_scale_loss rest"
proof -
  let ?opt = "case optimizer of Some p \<Rightarrow> OptimizerObject p
              | None \<Rightarrow> OptimizerList (trainer_optimizers model)"
  obtain q0 xa where a: "amp_scale_loss closure_loss ?opt x = (q0, xa)"
    by (cases "amp_scale_loss closure_loss ?opt x")
  show ?thesis
  proof (cases q0)
    case (Inl e)
    with a show ?thesis
      by (simp add: Let_def recorded_backward_def backward_def with_statement_def logged_apply)
  next
    case (Inr mgr)
    note mgr = this
    obtain q1 xb where b: "ctx_enter mgr xa = (q1, xb)" by (cases "ctx_enter mgr xa")
    show ?thesis
    proof (cases q1)
      case (Inl e)
      with a mgr b show ?thesis
        by (simp add: Let_def recorded_backward_def backward_def with_statement_def logged_manager_def
              logged_apply)
    next
      case (Inr scaled)
      obtain r xc where c: "super_backward model scaled optimizer args xb = (r, xc)"
        by (cases "super_backward model scaled optimizer args xb")
      obtain q xd where d: "ctx_exit mgr (case r of Inl e \<Rightarrow> Some e | Inr u \<Rightarrow> None) xc = (q, xd)"
        by (cases "ctx_exit mgr (case r of Inl e \<Rightarrow> Some e | Inr u \<Rightarrow> None) xc")
      from a mgr have a': "amp_scale_loss closure_loss ?opt x = (Inr mgr, xa)" by simp
      from b Inr have b': "ctx_enter mgr xa = (Inr scaled, xb)" by simp
      have "recorded_backward amp_scale_loss super_backward model closure_loss optimizer args
              (x, calls) =
            ((case q of Inl e' \<Rightarrow> Inl e'
              | Inr suppress \<Rightarrow> (case r of Inl e \<Rightarrow> if suppress then Inr () else Inl e
                                  | Inr u \<Rightarrow> Inr ())),
             (xd,
              calls @
              [ScaleLossCall closure_loss ?opt, EnterCall,
               SuperBackwardCall model scaled optimizer args,
               ExitCall (case r of Inl e \<Rightarrow> Some e | Inr u \<Rightarrow> None)]))"
        using a' b' c d by (rule recorded_backward_run)
      then show ?thesis by simp
    qed
  qed
qed

theorem backward_scale_loss_argument_witness:
  "filter is_scale_loss (snd (snd (recorded_backward
     (\<lambda>l opt x. (Inr \<lparr>ctx_enter = (\<lambda>s. (Inr (l * 128), 128)),
                       ctx_exit = (\<lambda>e s. (Inr False, 1))\<rparr>, x))
     (\<lambda>m l opt a s. (Inr (), s))
     \<lparr>automatic_optimization = True, trainer_optimizers = [Optimizer 0, Optimizer 1]\<rparr>
     (2 :: int) (Some (Optimizer 1)) () (1 :: nat, [])))) =
   [ScaleLossCall 2 (OptimizerObject (Optimizer 1))]"
  using backward_scale_loss_argument [where amp_scale_loss =
        "\<lambda>l opt x. (Inr \<lparr>ctx_enter = (\<lambda>s. (Inr (l * 128), 128)),
                          ctx_exit = (\<lambda>e s. (Inr False, 1))\<rparr>, x)"
      and super_backward = "\<lambda>m l opt a s. (Inr (), s)"
      and model = "\<lparr>automatic_optimization = True, trainer_optimizers = [Optimizer 0, Optimizer 1]\<rparr>"
      and closure_loss = "2 :: int" and optimizer = "Some (Optimizer 1)" and args = "()"
      and x = "1 :: nat" and calls = "[]"]
  by (simp add: recorded_backward_def backward_def with_statement_def logged_manager_def
        logged_def)

text \<open>
  C5 as stated fails: with no optimizer argument and two optimizers in the trainer,
  \<^verbatim>\<open>amp.scale_loss\<close> receives the list of both and not one of them, under automatic and
  under manual optimization alike.
\<close>

theorem backward_scale_loss_argument_counterexample:
  "filter is_scale_loss (snd (snd (recorded_backward
     (\<lambda>l opt x. (Inr \<lparr>ctx_enter = (\<lambda>s. (Inr (l * 128), 128)),
                       ctx_exit = (\<lambda>e s. (Inr False, 1))\<rparr>, x))
     (\<lambda>m l opt a s. (Inr (), s))
     \<lparr>automatic_optimization = True, trainer_optimizers = [Optimizer 1, Optimizer 2]\<rparr>
     (2 :: int) None () (1 :: nat, [])))) =
   [ScaleLossCall 2 (OptimizerList [Optimizer 1, Optimizer 2])] \<and>
   filter is_scale_loss (snd (snd (recorded_backward
     (\<lambda>l opt x. (Inr \<lparr>ctx_enter = (\<lambda>s. (Inr (l * 128), 128)),
                       ctx_exit = (\<lambda>e s. (Inr False, 1))\<rparr>, x))
     (\<lambda>m l opt a s. (Inr (), s))
     \<lparr>automatic_optimization = False, trainer_optimizers = [Optimizer 1, Optimizer 2]\<rparr>
     (2 :: int) None () (1 :: nat, [])))) =
   [ScaleLossCall 2 (OptimizerList [Optimizer 1, Optimizer 2])] \<and>
   OptimizerList [Optimizer 1, Optimizer 2] \<noteq> OptimizerObject (Optimizer 1) \<and>
   OptimizerList [Optimizer 1, Optimizer 2] \<noteq> OptimizerObject (Optimizer 2)"
  by (simp add: recorded_backward_def backward_def with_statement_def logged_manager_def
        logged_def)

subsection \<open>Optimizer step\<close>

lemma recorded_optimizer_step_trace:
  assumes "\<not> isinstance_LBFGS optimizer"
    and "closure x = (Inr closure_result, x')"
    and "after_closure model optimizer optimizer_idx x' = (Inr u, x'')"
  shows "snd (snd (recorded_optimizer_step after_closure step model optimizer optimizer_idx
                closure kwargs (x, calls))) =
         calls @ [ClosureCall, AfterClosureCall model optimizer optimizer_idx] @
           (if (case model of
                  LightningModule m \<Rightarrow> automatic_optimization m \<and> closure_result = None
                | Module \<Rightarrow> False)
            then [] else [StepCall optimizer kwargs])"
  using assms
  by (cases "step optimizer kwargs x''"; cases model)
     (simp_all add: recorded_optimizer_step_def optimizer_step_def logged_apply)

text \<open>
  C2. With an optimizer that is not LBFGS and a Lightning module, once the closure and the
  post-closure hook have returned: under automatic optimization the optimizer's step is
  not called when the closure returned \<^verbatim>\<open>None\<close> and is called once when it returned a
  value; under manual optimization the step is called once whatever the closure returned.
\<close>

theorem optimizer_step_gating:
  assumes "\<not> isinstance_LBFGS optimizer"
    and "closure x = (Inr closure_result, x')"
    and "after_closure (LightningModule m) optimizer optimizer_idx x' = (Inr (), x'')"
  shows "(automatic_optimization m \<and> closure_result = None \<longrightarrow>
            snd (snd (recorded_optimizer_step after_closure step (LightningModule m) optimizer
                        optimizer_idx closure kwargs (x, calls))) =
            calls @ [ClosureCall, AfterClosureCall (LightningModule m) optimizer optimizer_idx]) \<and>
         (automatic_optimization m \<and> closure_result \<noteq> None \<longrightarrow>
            snd (snd (recorded_optimizer_step after_closure step (LightningModule m) optimizer
                        optimizer_idx closure kwargs (x, calls))) =
            calls @ [ClosureCall, AfterClosureCall (LightningModule m) optimizer optimizer_idx,
                     StepCall optimizer kwargs]) \<and>
         (\<not> automatic_optimization m \<longrightarrow>
            snd (snd (recorded_optimizer_step after_closure step (LightningModule m) optimizer
                        optimizer_idx closure kwargs (x, calls))) =
            calls @ [ClosureCall, AfterClosureCall (LightningModule m) optimizer optimizer_idx,
                     StepCall optimizer kwargs])"
  using assms
    recorded_optimizer_step_trace [where optimizer = optimizer and closure = closure and x = x
      and closure_result = closure_result and x' = x' and after_closure = after_closure
      and model = "LightningModule m" and optimizer_idx = optimizer_idx and x'' = x''
      and step = step and kwargs = kwargs and calls = calls]
  by simp

theorem optimizer_step_gating_witness:
  "snd (snd (recorded_optimizer_step (\<lambda>m p i x. (Inr (), x)) (\<lambda>p k x. (Inr (), x + 10))
               (LightningModule \<lparr>automatic_optimization = True, trainer_optimizers = [Optimizer 0]\<rparr>)
               (Optimizer 0) 0 (\<lambda>x. (Inr (None :: nat option), Suc x)) () (0 :: nat, []))) =
     [ClosureCall,
      AfterClosureCall
        (LightningModule \<lparr>automatic_optimization = True, trainer_optimizers = [Optimizer 0]\<rparr>)
        (Optimizer 0) 0] \<and>
   snd (snd (recorded_optimizer_step (\<lambda>m p i x. (Inr (), x)) (\<lambda>p k x. (Inr (), x + 10))
               (LightningModule \<lparr>automatic_optimization = True, trainer_optimizers = [Optimizer 0]\<rparr>)
               (Optimizer 0) 0 (\<lambda>x. (Inr (Some (7 :: nat)), Suc x)) () (0 :: nat, []))) =
     [ClosureCall,
      AfterClosureCall
        (LightningModule \<lparr>automatic_optimization = True, trainer_optimizers = [Optimizer 0]\<rparr>)
        (Optimizer 0) 0,
      StepCall (Optimizer 0) ()]"
  using
    optimizer_step_gating [where optimizer = "Optimizer 0"
      and closure = "\<lambda>x. (Inr (None :: nat option), Suc x)" and x = "0 :: nat"
      and closure_result = None and x' = 1 and after_closure = "\<lambda>m p i x. (Inr (), x)"
      and m = "\<lparr>automatic_optimization = True, trainer_optimizers = [Optimizer 0]\<rparr>"
      and optimizer_idx = 0 and x'' = 1 and step = "\<lambda>p k x. (Inr (), x + 10)"
      and kwargs = "()" and calls = "[]"]
    optimizer_step_gating [where optimizer = "Optimizer 0"
      and closure = "\<lambda>x. (Inr (Some (7 :: nat)), Suc x)" and x = "0 :: nat"
      and closure_result = "Some 7" and x' = 1 and after_closure = "\<lambda>m p i x. (Inr (), x)"
      and m = "\<lparr>automatic_optimization = True, trainer_optimizers = [Optimizer 0]\<rparr>"
      and optimizer_idx = 0 and x'' = 1 and step = "\<lambda>p k x. (Inr (), x + 10)"
      and kwargs = "()" and calls = "[]"]
  by simp

text \<open>
  C6. With an LBFGS optimizer, \<^verbatim>\<open>optimizer_step\<close> raises the \<^verbatim>\<open>MisconfigurationException\<close>
  whose message contains the optimizer index, and nothing else happens: the closure, the
  post-closure hook and the optimizer's step are not called, and the external state is
  the one the call started from.
\<close>

theorem optimizer_step_lbfgs:
  assumes "isinstance_LBFGS optimizer"
  shows "recorded_optimizer_step after_closure step model optimizer optimizer_idx closure kwargs
           (x, calls) =
         (Inl (MisconfigurationException
                 (''apex AMP and the LBFGS optimizer are not compatible (optimizer '' @
                  str_int optimizer_idx @ '').'')),
          (x, calls)) \<and>
         sublist (str_int optimizer_idx) (lbfgs_message optimizer_idx)"
proof
  show "recorded_optimizer_step after_closure step model optimizer optimizer_idx closure kwargs
          (x, calls) =
        (Inl (MisconfigurationException
                (''apex AMP and the LBFGS optimizer are not compatible (optimizer '' @
                 str_int optimizer_idx @ '').'')),
         (x, calls))"
    using assms by (simp add: recorded_optimizer_step_def optimizer_step_def lbfgs_message_def)
  show "sublist (str_int optimizer_idx) (lbfgs_message optimizer_idx)"
    unfolding lbfgs_message_def by (rule sublist_appendI)
qed

theorem optimizer_step_lbfgs_witness:
  "isinstance_LBFGS (LBFGS 3) \<and>
   recorded_optimizer_step (\<lambda>m p i x. (Inr (), x)) (\<lambda>p k x. (Inr (), x + 10))
     Module (LBFGS 3) 12 (\<lambda>x. (Inr (Some (7 :: nat)), Suc x)) () (0 :: nat, []) =
   (Inl (MisconfigurationException
           ''apex AMP and the LBFGS optimizer are not compatible (optimizer 12).''),
    (0, []))"
  using
    optimizer_step_lbfgs [where optimizer = "LBFGS 3" and after_closure = "\<lambda>m p i x. (Inr (), x)"
      and step = "\<lambda>p k x. (Inr (), x + 10)" and model = Module and optimizer_idx = 12
      and closure = "\<lambda>x. (Inr (Some (7 :: nat)), Suc x)" and kwargs = "()"
      and x = "0 :: nat" and calls = "[]"]
  by (simp add: str_int_def digit_char_def)

text \<open>
  C10. With an optimizer that is not LBFGS and a plain \<^verbatim>\<open>Module\<close>, once the closure and
  the post-closure hook have returned, the optimizer's step is called once, whether the
  closure returned \<^verbatim>\<open>None\<close> or a value.
\<close>

theorem optimizer_step_plain_module:
  assumes "\<not> isinstance_LBFGS optimizer"
    and "closure x = (Inr closure_result, x')"
    and "after_closure Module optimizer optimizer_idx x' = (Inr (), x'')"
  shows "snd (snd (recorded_optimizer_step after_closure step Module optimizer optimizer_idx
                closure kwargs (x, calls))) =
         calls @ [ClosureCall, AfterClosureCall Module optimizer optimizer_idx,
                  StepCall optimizer kwargs]"
  using assms
    recorded_optimizer_step_trace [where optimizer = optimizer and closure = closure and x = x
      and closure_result = closure_result and x' = x' and after_closure = after_closure
      and model = Module and optimizer_idx = optimizer_idx and x'' = x''
      and step = step and kwargs = kwargs and calls = calls]
  by simp

theorem optimizer_step_plain_module_witness:
  "snd (snd (recorded_optimizer_step (\<lambda>m p i x. (Inr (), x)) (\<lambda>p k x. (Inr (), x + 10))
               Module (Optimizer 0) 0 (\<lambda>x. (Inr (None :: nat option), Suc x)) ()
               (0 :: nat, []))) =
     [ClosureCall, AfterClosureCall Module (Optimizer 0) 0, StepCall (Optimizer 0) ()]"
  using
    optimizer_step_plain_module [where optimizer = "Optimizer 0"
      and closure = "\<lambda>x. (Inr (None :: nat option), Suc x)" and x = "0 :: nat"
      and closure_result = None and x' = 1 and after_closure = "\<lambda>m p i x. (Inr (), x)"
      and optimizer_idx = 0 and x'' = 1 and step = "\<lambda>p k x. (Inr (), x + 10)"
      and kwargs = "()" and calls = "[]"]
  by simp

subsection \<open>Checkpoints\<close>

text \<open>
  C9. When the checkpoint has no entry \<^verbatim>\<open>"amp_scaling_state"\<close>, \<^verbatim>\<open>on_load_checkpoint\<close>
  returns normally, \<^verbatim>\<open>amp.load_state_dict\<close> is not called and the backend state is the
  one the call started from.
\<close>

theorem on_load_checkpoint_missing_key:
  assumes "''amp_scaling_state'' \<notin> dom checkpoint"
  shows "recorded_on_load_checkpoint amp_load_state_dict checkpoint (x, calls) = (Inr (), (x, calls))"
  using assms by (simp add: recorded_on_load_checkpoint_def on_load_checkpoint_def domIff)

theorem on_load_checkpoint_missing_key_witness:
  "''amp_scaling_state'' \<notin> dom [''state_dict'' \<mapsto> (5 :: nat)] \<and>
   recorded_on_load_checkpoint (\<lambda>v x. (Inl (Raised ''bad state''), v)) [''state_dict'' \<mapsto> (5 :: nat)]
     (1 :: nat, []) = (Inr (), (1, []))"
  using on_load_checkpoint_missing_key [where checkpoint = "[''state_dict'' \<mapsto> (5 :: nat)]"
      and amp_load_state_dict = "\<lambda>v x. (Inl (Raised ''bad state''), v)" and x = "1 :: nat"
      and calls = "[]"]
  by simp

text \<open>
  C3. When \<^verbatim>\<open>amp.state_dict()\<close> returns a blob, \<^verbatim>\<open>on_save_checkpoint\<close> stores it under
  \<^verbatim>\<open>"amp_scaling_state"\<close> in any checkpoint, leaving the other entries alone.
  \<^verbatim>\<open>on_load_checkpoint\<close> on the saved empty checkpoint is \<^verbatim>\<open>amp.load_state_dict\<close> of that
  blob; so with a backend whose state after a successful load of \<open>v\<close> reads back as \<open>v\<close>,
  the state after the load reads back as the blob read at the time of the save.
\<close>

theorem checkpoint_round_trip:
  assumes "amp_state_dict x = (Inr blob, x')"
    and "\<And>v s s'. amp_load_state_dict v s = (Inr (), s') \<Longrightarrow> fst (amp_state_dict s') = Inr v"
    and "on_load_checkpoint amp_load_state_dict
           (fst (snd (on_save_checkpoint amp_state_dict Map.empty x))) y = (Inr (), y')"
  shows "(\<forall>checkpoint. on_save_checkpoint amp_state_dict checkpoint x =
            (Inr (), checkpoint(''amp_scaling_state'' \<mapsto> blob), x')) \<and>
         on_load_checkpoint amp_load_state_dict
           (fst (snd (on_save_checkpoint amp_state_dict Map.empty x))) y =
           amp_load_state_dict blob y \<and>
         fst (amp_state_dict y') = Inr blob"
proof -
  have save: "on_save_checkpoint amp_state_dict checkpoint x =
                (Inr (), checkpoint(''amp_scaling_state'' \<mapsto> blob), x')" for checkpoint
    using assms(1) by (simp add: on_save_checkpoint_def)
  have load: "on_load_checkpoint amp_load_state_dict
                (fst (snd (on_save_checkpoint amp_state_dict Map.empty x))) y =
              amp_load_state_dict blob y"
    by (simp add: save on_load_checkpoint_def)
  with assms(3) have "amp_load_state_dict blob y = (Inr (), y')" by simp
  then have "fst (amp_state_dict y') = Inr blob" by (rule assms(2))
  with save load show ?thesis by blast
qed

theorem checkpoint_round_trip_witness:
  "fst (snd (on_save_checkpoint (\<lambda>s. (Inr s, s)) Map.empty (65536 :: nat))) ''amp_scaling_state'' = Some 65536 \<and>
   on_load_checkpoint (\<lambda>v s. (Inr (), v))
     (fst (snd (on_save_checkpoint (\<lambda>s. (Inr s, s)) Map.empty (65536 :: nat)))) (1 :: nat) = (Inr (), 65536) \<and>
   fst ((\<lambda>s. (Inr s, s)) (65536 :: nat)) = (Inr 65536 :: exn + nat)"
  using checkpoint_round_trip [where amp_state_dict = "\<lambda>s. (Inr s, s)" and x = "65536 :: nat"
      and blob = 65536 and x' = 65536 and amp_load_state_dict = "\<lambda>v s. (Inr (), v)"
      and y = 1 and y' = 65536]
  by (simp add: on_save_checkpoint_def on_load_checkpoint_def)

subsection \<open>Scheduler repair\<close>

lemma mro_loop_enumerate:
  assumes "scheduler_mro scheduler = pre @ cs"
  shows "mro_loop state_dict class_init load_state_dict (enumerate (length pre) cs)
           scheduler optimizer =
         (case find (\<lambda>c. c \<in> {LRScheduler, ReduceLROnPlateau}) cs of
            None \<Rightarrow> (None, scheduler)
          | Some c \<Rightarrow>
              (Some (state_dict scheduler),
               load_state_dict (class_init c scheduler optimizer) (state_dict scheduler)))"
  using assms
proof (induction cs arbitrary: pre)
  case Nil
  then show ?case by simp
next
  case (Cons c cs)
  show ?case
  proof (cases "c \<in> {LRScheduler, ReduceLROnPlateau}")
    case True
    have "scheduler_mro scheduler ! length pre = c"
      using Cons.prems by simp
    with True show ?thesis by (simp add: Let_def)
  next
    case False
    have "scheduler_mro scheduler = (pre @ [c]) @ cs"
      using Cons.prems by simp
    from Cons.IH [OF this] False show ?thesis by simp
  qed
qed

lemma mro_loop_whole:
  "mro_loop state_dict class_init load_state_dict (enumerate 0 (scheduler_mro scheduler))
     scheduler optimizer =
   (case find (\<lambda>c. c \<in> {LRScheduler, ReduceLROnPlateau}) (scheduler_mro scheduler) of
      None \<Rightarrow> (None, scheduler)
    | Some c \<Rightarrow>
        (Some (state_dict scheduler),
         load_state_dict (class_init c scheduler optimizer) (state_dict scheduler)))"
  using mro_loop_enumerate [where pre = "[]" and cs = "scheduler_mro scheduler"
      and scheduler = scheduler and state_dict = state_dict and class_init = class_init
      and load_state_dict = load_state_dict and optimizer = optimizer]
  by simp

lemma optimizer_loop_result:
  "optimizer_loop state_dict class_init load_state_dict optimizers scheduler =
   (if scheduler_optimizer scheduler \<in> set optimizers then
      (case find (\<lambda>c. c \<in> {LRScheduler, ReduceLROnPlateau}) (scheduler_mro scheduler) of
         None \<Rightarrow> scheduler
       | Some c \<Rightarrow>
           load_state_dict (class_init c scheduler (scheduler_optimizer scheduler))
             (state_dict scheduler))
    else scheduler)"
proof (induction optimizers)
  case Nil
  then show ?case by simp
next
  case (Cons p ps)
  show ?case
  proof (cases "scheduler_optimizer scheduler = p")
    case True
    show ?thesis
    proof (cases "find (\<lambda>c. c \<in> {LRScheduler, ReduceLROnPlateau}) (scheduler_mro scheduler)")
      case None
      with True Cons.IH show ?thesis by (simp add: mro_loop_whole)
    next
      case (Some c)
      with True show ?thesis by (simp add: mro_loop_whole)
    qed
  next
    case False
    with Cons.IH show ?thesis by auto
  qed
qed

lemma optimizer_loop_preserves:
  assumes "\<And>c s p. scheduler_optimizer (class_init c s p) = p"
    and "\<And>s d. scheduler_optimizer (load_state_dict s d) = scheduler_optimizer s"
    and "\<And>s s'. last_epoch (load_state_dict s' (state_dict s)) = last_epoch s"
  shows "scheduler_optimizer
           (optimizer_loop state_dict class_init load_state_dict optimizers scheduler) =
         scheduler_optimizer scheduler \<and>
         last_epoch (optimizer_loop state_dict class_init load_state_dict optimizers scheduler) =
         last_epoch scheduler"
  by (simp add: optimizer_loop_result assms split: option.split)

lemma reinit_returns:
  assumes "\<forall>cfg \<in> set schedulers. cfg ''scheduler'' \<noteq> None"
  shows "fst (reinit_scheduler_properties state_dict class_init load_state_dict optimizers
                schedulers store) = Inr ()"
  using assms by (induction schedulers arbitrary: store) auto

lemma reinit_untouched:
  assumes "\<forall>cfg \<in> set schedulers. cfg ''scheduler'' \<noteq> Some ref"
  shows "snd (reinit_scheduler_properties state_dict class_init load_state_dict optimizers
                schedulers store) ref = store ref"
  using assms by (induction schedulers arbitrary: store) (auto split: option.split)

lemma reinit_preserves:
  assumes "\<And>c s p. scheduler_optimizer (class_init c s p) = p"
    and "\<And>s d. scheduler_optimizer (load_state_dict s d) = scheduler_optimizer s"
    and "\<And>s s'. last_epoch (load_state_dict s' (state_dict s)) = last_epoch s"
  shows "scheduler_optimizer
           (snd (reinit_scheduler_properties state_dict class_init load_state_dict optimizers
                   schedulers store) ref) = scheduler_optimizer (store ref) \<and>
         last_epoch
           (snd (reinit_scheduler_properties state_dict class_init load_state_dict optimizers
                   schedulers store) ref) = last_epoch (store ref)"
proof (induction schedulers arbitrary: store)
  case Nil
  then show ?case by simp
next
  case (Cons cfg rest)
  show ?case
  proof (cases "cfg ''scheduler''")
    case None
    then show ?thesis by simp
  next
    case (Some r)
    let ?loop = "optimizer_loop state_dict class_init load_state_dict optimizers"
    let ?store = "store(r := ?loop (store r))"
    let ?run = "reinit_scheduler_properties state_dict class_init load_state_dict optimizers"
    have keep: "scheduler_optimizer (?loop (store r)) = scheduler_optimizer (store r) \<and>
                last_epoch (?loop (store r)) = last_epoch (store r)"
      by (rule optimizer_loop_preserves) (rule assms)+
    have step: "?run (cfg # rest) store = ?run rest ?store"
      using Some by simp
    have "scheduler_optimizer (snd (?run rest ?store) ref) = scheduler_optimizer (?store ref)"
      using Cons.IH [of ?store] by blast
    also have "\<dots> = scheduler_optimizer (store ref)"
      using keep by (cases "r = ref") simp_all
    finally have opt: "scheduler_optimizer (snd (?run rest ?store) ref) =
                       scheduler_optimizer (store ref)" .
    have "last_epoch (snd (?run rest ?store) ref) = last_epoch (?store ref)"
      using Cons.IH [of ?store] by blast
    also have "\<dots> = last_epoch (store ref)"
      using keep by (cases "r = ref") simp_all
    finally have "last_epoch (snd (?run rest ?store) ref) = last_epoch (store ref)" .
    with opt show ?thesis unfolding step by blast
  qed
qed

lemma reinit_once:
  assumes "\<forall>cfg \<in> set schedulers. cfg ''scheduler'' \<noteq> None"
    and "length (filter (\<lambda>cfg. cfg ''scheduler'' = Some ref) schedulers) = 1"
  shows "snd (reinit_scheduler_properties state_dict class_init load_state_dict optimizers
                schedulers store) ref =
         optimizer_loop state_dict class_init load_state_dict optimizers (store ref)"
  using assms
proof (induction schedulers arbitrary: store)
  case Nil
  then show ?case by simp
next
  case (Cons cfg rest)
  from Cons.prems(1) obtain r where r: "cfg ''scheduler'' = Some r" by auto
  show ?case
  proof (cases "r = ref")
    case True
    with r Cons.prems(2) have "filter (\<lambda>cfg. cfg ''scheduler'' = Some ref) rest = []" by simp
    then have "\<forall>cfg \<in> set rest. cfg ''scheduler'' \<noteq> Some ref"
      by (simp add: filter_empty_conv)
    then have "snd (reinit_scheduler_properties state_dict class_init load_state_dict optimizers
                      rest (store(ref := optimizer_loop state_dict class_init load_state_dict
                                           optimizers (store ref)))) ref =
               (store(ref := optimizer_loop state_dict class_init load_state_dict
                               optimizers (store ref))) ref"
      by (rule reinit_untouched)
    with r True show ?thesis by simp
  next
    case False
    with r Cons.prems have "\<forall>cfg \<in> set rest. cfg ''scheduler'' \<noteq> None"
      and "length (filter (\<lambda>cfg. cfg ''scheduler'' = Some ref) rest) = 1" by auto
    from Cons.IH [OF this] r False show ?thesis by simp
  qed
qed

text \<open>
  C8. Assume the schedulers' methods behave as torch's do: a constructor binds the
  optimizer it is given, \<^verbatim>\<open>load_state_dict\<close> leaves the bound optimizer alone, and loading
  the \<^verbatim>\<open>state_dict\<close> of a scheduler restores its \<^verbatim>\<open>last_epoch\<close>. Let every entry of
  \<^verbatim>\<open>schedulers\<close> have a \<^verbatim>\<open>"scheduler"\<close> key, and let \<open>ref\<close> be a scheduler of the list,
  at step count \<open>K\<close>, whose optimizer is among \<^verbatim>\<open>optimizers\<close>. Then the call returns
  normally, the scheduler's step count is still \<open>K\<close> and its optimizer is still the
  matching one. If the scheduler is listed once, it is afterwards the result of snapshotting
  its state, running the constructor of the first class of its method resolution order
  that is \<^verbatim>\<open>_LRScheduler\<close> or \<^verbatim>\<open>ReduceLROnPlateau\<close> on it with the matching optimizer
  and restoring the snapshot; when no class of the order is one of the two, it is untouched.
\<close>

theorem reinit_scheduler_properties_rebuilds:
  assumes "\<forall>cfg \<in> set schedulers. cfg ''scheduler'' \<noteq> None"
    and "\<And>c s p. scheduler_optimizer (class_init c s p) = p"
    and "\<And>s d. scheduler_optimizer (load_state_dict s d) = scheduler_optimizer s"
    and "\<And>s s'. last_epoch (load_state_dict s' (state_dict s)) = last_epoch s"
    and "cfg \<in> set schedulers"
    and "cfg ''scheduler'' = Some ref"
    and "scheduler_optimizer (store ref) \<in> set optimizers"
    and "last_epoch (store ref) = K"
  shows "fst (reinit_scheduler_properties state_dict class_init load_state_dict optimizers
                schedulers store) = Inr () \<and>
         last_epoch
           (snd (reinit_scheduler_properties state_dict class_init load_state_dict optimizers
                   schedulers store) ref) = K \<and>
         scheduler_optimizer
           (snd (reinit_scheduler_properties state_dict class_init load_state_dict optimizers
                   schedulers store) ref) = scheduler_optimizer (store ref) \<and>
         (length (filter (\<lambda>cfg. cfg ''scheduler'' = Some ref) schedulers) = 1 \<longrightarrow>
            snd (reinit_scheduler_properties state_dict class_init load_state_dict optimizers
                   schedulers store) ref =
            (case find (\<lambda>c. c \<in> {LRScheduler, ReduceLROnPlateau}) (scheduler_mro (store ref)) of
               None \<Rightarrow> store ref
             | Some c \<Rightarrow>
                 load_state_dict (class_init c (store ref) (scheduler_optimizer (store ref)))
                   (state_dict (store ref))))"
proof (intro conjI impI)
  let ?run = "reinit_scheduler_properties state_dict class_init load_state_dict optimizers"
  show "fst (?run schedulers store) = Inr ()"
    using assms(1) by (rule reinit_returns)
  have keep: "scheduler_optimizer (snd (?run schedulers store) ref) =
                scheduler_optimizer (store ref) \<and>
              last_epoch (snd (?run schedulers store) ref) = last_epoch (store ref)"
    by (rule reinit_preserves) (rule assms)+
  from keep assms(8) show "last_epoch (snd (?run schedulers store) ref) = K" by simp
  from keep show "scheduler_optimizer (snd (?run schedulers store) ref) =
                  scheduler_optimizer (store ref)" by simp
  assume once: "length (filter (\<lambda>cfg. cfg ''scheduler'' = Some ref) schedulers) = 1"
  have "snd (?run schedulers store) ref =
        optimizer_loop state_dict class_init load_state_dict optimizers (store ref)"
    using assms(1) once by (rule reinit_once)
  with assms(7) show "snd (?run schedulers store) ref =
      (case find (\<lambda>c. c \<in> {LRScheduler, ReduceLROnPlateau}) (scheduler_mro (store ref)) of
         None \<Rightarrow> store ref
       | Some c \<Rightarrow>
           load_state_dict (class_init c (store ref) (scheduler_optimizer (store ref)))
             (state_dict (store ref)))"
    by (simp add: optimizer_loop_result)
qed

theorem reinit_scheduler_properties_rebuilds_witness:
  "snd (reinit_scheduler_properties last_epoch
          (\<lambda>c s p. s\<lparr>scheduler_optimizer := p, last_epoch := 0,
                       scheduler_attrs := Suc (scheduler_attrs s)\<rparr>)
          (\<lambda>s d. s\<lparr>last_epoch := d\<rparr>)
          [Optimizer 0, Optimizer 1] [[''scheduler'' \<mapsto> 0]]
          (\<lambda>r. \<lparr>scheduler_optimizer = Optimizer 1,
                 scheduler_mro = [OtherClass ''StepLR'', LRScheduler, OtherClass ''object''],
                 last_epoch = 7, scheduler_attrs = 0 :: nat\<rparr>)) 0 =
   \<lparr>scheduler_optimizer = Optimizer 1,
    scheduler_mro = [OtherClass ''StepLR'', LRScheduler, OtherClass ''object''],
    last_epoch = 7, scheduler_attrs = 1\<rparr>"
  using reinit_scheduler_properties_rebuilds [where schedulers = "[[''scheduler'' \<mapsto> 0]]"
      and class_init = "\<lambda>c s p. s\<lparr>scheduler_optimizer := p, last_epoch := 0,
                                    scheduler_attrs := Suc (scheduler_attrs s)\<rparr>"
      and load_state_dict = "\<lambda>s d. s\<lparr>last_epoch := d\<rparr>"
      and state_dict = last_epoch
      and cfg = "[''scheduler'' \<mapsto> 0]" and ref = 0
      and store = "\<lambda>r. \<lparr>scheduler_optimizer = Optimizer 1,
                          scheduler_mro = [OtherClass ''StepLR'', LRScheduler, OtherClass ''object''],
                          last_epoch = 7, scheduler_attrs = 0 :: nat\<rparr>"
      and optimizers = "[Optimizer 0, Optimizer 1]" and K = 7]
  by simp

end
